theory Spec2Isabelle
  imports Complex_Main "HOL-Library.AList"
begin

section \<open>Data model\<close>

text \<open>
  Identifiers are the strings the services pass around (UUIDs). Monetary amounts are
  Python numbers; they are modelled as exact rationals, so every comparison and every
  sum below is the mathematical one.
\<close>

type_synonym user_id = string
type_synonym group_id = string

text \<open>A row of the \<^verbatim>\<open>balances\<close> table.\<close>

record balance_row =
  group_id :: group_id
  from_user_id :: user_id
  to_user_id :: user_id
  amount :: rat

text \<open>The dict built by \<^verbatim>\<open>map_row_to_balance\<close>.\<close>

record balance =
  groupId :: group_id
  fromUserId :: user_id
  toUserId :: user_id
  b_amount :: rat

text \<open>
  Python's \<^verbatim>\<open>round(x, 2)\<close>: the nearest multiple of one hundredth, a tie going to the
  even neighbour.
\<close>

definition py_round2 :: "rat \<Rightarrow> rat" where
  "py_round2 x =
     (let y = x * 100; f = \<lfloor>y\<rfloor>; d = y - of_int f
      in of_int (if d < 1 / 2 then f
                 else if 1 / 2 < d then f + 1
                 else if even f then f else f + 1) / 100)"

definition map_row_to_balance :: "balance_row \<Rightarrow> balance" where
  "map_row_to_balance row =
     \<lparr>groupId = group_id row, fromUserId = from_user_id row,
      toUserId = to_user_id row, b_amount = py_round2 (amount row)\<rparr>"

section \<open>Balance service\<close>

text \<open>
  The table is a list of rows in insertion order: \<^verbatim>\<open>DELETE\<close> filters the list,
  \<^verbatim>\<open>INSERT\<close> appends, a \<^verbatim>\<open>SELECT\<close> without \<^verbatim>\<open>ORDER BY\<close> reads the rows in that order.
\<close>

definition is_key :: "group_id \<Rightarrow> user_id \<Rightarrow> user_id \<Rightarrow> balance_row \<Rightarrow> bool" where
  "is_key g f t row \<longleftrightarrow> group_id row = g \<and> from_user_id row = f \<and> to_user_id row = t"

definition set_balance ::
  "balance_row list \<Rightarrow> group_id \<Rightarrow> user_id \<Rightarrow> user_id \<Rightarrow> rat \<Rightarrow> balance_row list" where
  "set_balance bs g f t a =
     (let bs' = filter (\<lambda>row. \<not> is_key g f t row) bs
      in if 0 < a
         then bs' @ [\<lparr>group_id = g, from_user_id = f, to_user_id = t, amount = a\<rparr>]
         else bs')"

definition get_balance_between_users ::
  "balance_row list \<Rightarrow> group_id \<Rightarrow> user_id \<Rightarrow> user_id \<Rightarrow> rat" where
  "get_balance_between_users bs g f t =
     (case filter (is_key g f t) bs of [] \<Rightarrow> 0 | row # _ \<Rightarrow> amount row)"

definition update_balance ::
  "balance_row list \<Rightarrow> group_id \<Rightarrow> user_id \<Rightarrow> user_id \<Rightarrow> rat \<Rightarrow> balance_row list" where
  "update_balance bs g f t a =
     (let reverse = get_balance_between_users bs g t f
      in if 0 < reverse then
           (if a < reverse then set_balance bs g t f (reverse - a)
            else if reverse < a then
              set_balance (set_balance bs g t f 0) g f t (a - reverse)
            else set_balance bs g t f 0)
         else
           (let current = get_balance_between_users bs g f t
            in set_balance bs g f t (current + a)))"

definition get_group_balances :: "balance_row list \<Rightarrow> group_id \<Rightarrow> balance list" where
  "get_group_balances bs g =
     map map_row_to_balance
       (filter (\<lambda>row. 0 < amount row) (filter (\<lambda>row. group_id row = g) bs))"

definition clear_group_balances :: "balance_row list \<Rightarrow> group_id \<Rightarrow> balance_row list" where
  "clear_group_balances bs g = filter (\<lambda>row. group_id row \<noteq> g) bs"

text \<open>
  The two loops of \<^verbatim>\<open>apply_smart_settlement\<close> have the same body; \<open>reduce_each\<close> is
  that loop, over the entries read before the first write.
\<close>

fun reduce_each ::
  "balance_row list \<Rightarrow> group_id \<Rightarrow> balance list \<Rightarrow> rat \<Rightarrow> balance_row list" where
  "reduce_each bs g [] remaining_amount = bs"
| "reduce_each bs g (debt # rest) remaining_amount =
     (if remaining_amount \<le> 0 then bs
      else
        (let reduction = min (b_amount debt) remaining_amount;
             new_balance = b_amount debt - reduction
         in reduce_each (set_balance bs g (fromUserId debt) (toUserId debt) new_balance)
              g rest (remaining_amount - reduction)))"

definition apply_smart_settlement ::
  "balance_row list \<Rightarrow> group_id \<Rightarrow> user_id \<Rightarrow> user_id \<Rightarrow> rat \<Rightarrow> balance_row list" where
  "apply_smart_settlement bs g payer_id recipient_id a =
     (let all_balances = get_group_balances bs g;
          payer_debts = filter (\<lambda>b. fromUserId b = payer_id) all_balances;
          total_payer_debt = sum_list (map b_amount payer_debts);
          recipient_credits = filter (\<lambda>b. toUserId b = recipient_id) all_balances;
          total_recipient_credit = sum_list (map b_amount recipient_credits);
          bs1 = (if 0 < total_payer_debt then reduce_each bs g payer_debts a else bs)
      in if 0 < total_recipient_credit then reduce_each bs1 g recipient_credits a else bs1)"







section \<open>Split calculator\<close>

datatype split_type = EQUAL | EXACT | PERCENTAGE | UNKNOWN

text \<open>
  A participant declaration; \<open>None\<close> is a key the dict does not have.
\<close>

record split =
  userId :: user_id
  s_amount :: "rat option"
  s_percentage :: "rat option"

record share =
  sh_userId :: user_id
  sh_amount :: rat

datatype validation_error =
    NegativeOrZeroAmount
  | EmptySplit
  | SplitSumMismatch rat
  | PercentageSumMismatch rat
  | NegativeShare nat
  | NegativePercentage nat

definition get_amount :: "split \<Rightarrow> rat" where
  "get_amount s = (case s_amount s of None \<Rightarrow> 0 | Some a \<Rightarrow> a)"

definition get_percentage :: "split \<Rightarrow> rat" where
  "get_percentage s = (case s_percentage s of None \<Rightarrow> 0 | Some p \<Rightarrow> p)"

definition validate_expense :: "rat \<Rightarrow> split_type \<Rightarrow> split list \<Rightarrow> validation_error list" where
  "validate_expense total_amount st splits =
     (if total_amount \<le> 0 then [NegativeOrZeroAmount] else []) @
     (if splits = [] then [EmptySplit] else []) @
     (if st = EXACT \<and> 1 / 100 < \<bar>sum_list (map get_amount splits) - total_amount\<bar>
      then [SplitSumMismatch (sum_list (map get_amount splits))] else []) @
     (if st = PERCENTAGE \<and> 1 / 100 < \<bar>sum_list (map get_percentage splits) - 100\<bar>
      then [PercentageSumMismatch (sum_list (map get_percentage splits))] else []) @
     concat (map (\<lambda>(i, s).
        (if st = EXACT \<and> get_amount s < 0 then [NegativeShare i] else []) @
        (if st = PERCENTAGE \<and> get_percentage s < 0 then [NegativePercentage i] else []))
       (enumerate 0 splits))"

definition valid :: "validation_error list \<Rightarrow> bool" where
  "valid errors \<longleftrightarrow> errors = []"

text \<open>
  The exceptions of the services. \<open>KeyError\<close> is the exception \<^verbatim>\<open>calculate_splits\<close>
  raises on a declaration without the value it reads.
\<close>

datatype error =
    GroupNotFound
  | PayerNotMember
  | NonMemberParticipant "user_id list"
  | ValidationFailed "validation_error list"
  | UnknownSplitType
  | ZeroDivisionError
  | KeyError
  | NotAMember
  | NonPositiveAmount
  | PayerNotInDebt
  | RecipientNotOwed
  | SettlementExceedsBalance

text \<open>
  The list comprehensions of \<^verbatim>\<open>calculate_splits\<close> raise at the first declaration that
  lacks the key they read.
\<close>

fun exact_shares :: "split list \<Rightarrow> error + share list" where
  "exact_shares [] = Inr []"
| "exact_shares (s # rest) =
     (case s_amount s of
        None \<Rightarrow> Inl KeyError
      | Some a \<Rightarrow>
          (case exact_shares rest of
             Inl e \<Rightarrow> Inl e
           | Inr out \<Rightarrow> Inr (\<lparr>sh_userId = userId s, sh_amount = a\<rparr> # out)))"

fun percentage_shares :: "rat \<Rightarrow> split list \<Rightarrow> error + share list" where
  "percentage_shares total_amount [] = Inr []"
| "percentage_shares total_amount (s # rest) =
     (case s_percentage s of
        None \<Rightarrow> Inl KeyError
      | Some p \<Rightarrow>
          (case percentage_shares total_amount rest of
             Inl e \<Rightarrow> Inl e
           | Inr out \<Rightarrow>
               Inr (\<lparr>sh_userId = userId s,
                     sh_amount = py_round2 (p / 100 * total_amount)\<rparr> # out)))"

definition calculate_splits :: "rat \<Rightarrow> split_type \<Rightarrow> split list \<Rightarrow> error + share list" where
  "calculate_splits total_amount st splits =
     (case st of
        EQUAL \<Rightarrow>
          (if splits = [] then Inl ZeroDivisionError
           else Inr (map (\<lambda>s. \<lparr>sh_userId = userId s,
                                sh_amount = py_round2 (total_amount / of_nat (length splits))\<rparr>)
                      splits))
      | EXACT \<Rightarrow> exact_shares splits
      | PERCENTAGE \<Rightarrow> percentage_shares total_amount splits
      | UNKNOWN \<Rightarrow> Inl UnknownSplitType)"


section \<open>Stored state\<close>

record expense_row =
  e_id :: string
  e_group_id :: group_id
  total_amount :: rat
  paid_by :: user_id
  e_split_type :: split_type
  created_at :: nat

record split_row =
  expense_id :: string
  user_id :: user_id
  sr_amount :: rat
  sr_percentage :: "rat option"

record settlement_row =
  st_id :: string
  st_group_id :: group_id
  st_from_user_id :: user_id
  st_to_user_id :: user_id
  st_amount :: rat

text \<open>
  The database. \<open>groups\<close> gives the member list of every group that exists; the other
  tables are lists of rows in insertion order. The timestamp of an expense row and the
  fresh identifiers are chosen by the environment and are parameters of the operations.
\<close>

record state =
  groups :: "group_id \<rightharpoonup> user_id list"
  expenses :: "expense_row list"
  expense_splits :: "split_row list"
  settlements :: "settlement_row list"
  balances :: "balance_row list"

text \<open>The dict built by \<^verbatim>\<open>map_row_to_expense\<close>.\<close>

record expense =
  x_id :: string
  x_groupId :: group_id
  totalAmount :: rat
  paidBy :: user_id
  splitType :: split_type
  splits :: "split list"
  createdAt :: nat

definition load_splits :: "state \<Rightarrow> string \<Rightarrow> split list" where
  "load_splits s eid =
     map (\<lambda>r. \<lparr>userId = user_id r, s_amount = Some (sr_amount r),
                s_percentage = sr_percentage r\<rparr>)
       (filter (\<lambda>r. expense_id r = eid) (expense_splits s))"

definition map_row_to_expense :: "expense_row \<Rightarrow> split list \<Rightarrow> expense" where
  "map_row_to_expense row sp =
     \<lparr>x_id = e_id row, x_groupId = e_group_id row, totalAmount = total_amount row,
      paidBy = paid_by row, splitType = e_split_type row, splits = sp,
      createdAt = created_at row\<rparr>"

section \<open>Expense service\<close>

definition get_expense :: "state \<Rightarrow> string \<Rightarrow> expense option" where
  "get_expense s eid =
     (case filter (\<lambda>row. e_id row = eid) (expenses s) of
        [] \<Rightarrow> None
      | row # _ \<Rightarrow> Some (map_row_to_expense row (load_splits s eid)))"

text \<open>
  \<^verbatim>\<open>ORDER BY created_at DESC\<close>: the newest expense first; rows of equal timestamp keep the
  order of the table.
\<close>

definition get_group_expenses :: "state \<Rightarrow> group_id \<Rightarrow> expense list" where
  "get_group_expenses s g =
     map (\<lambda>row. map_row_to_expense row (load_splits s (e_id row)))
       (sort_key (\<lambda>row. - int (created_at row))
          (filter (\<lambda>row. e_group_id row = g) (expenses s)))"

text \<open>One call of the update engine for every share that is not the payer's.\<close>

fun apply_shares ::
  "balance_row list \<Rightarrow> group_id \<Rightarrow> user_id \<Rightarrow> share list \<Rightarrow> balance_row list" where
  "apply_shares bs g payer [] = bs"
| "apply_shares bs g payer (sp # rest) =
     apply_shares
       (if sh_userId sp \<noteq> payer then update_balance bs g (sh_userId sp) payer (sh_amount sp)
        else bs)
       g payer rest"

record expense_data =
  d_groupId :: group_id
  d_totalAmount :: rat
  d_paidBy :: user_id
  d_splitType :: split_type
  d_splits :: "split list"

text \<open>
  The percentage stored with a calculated share: that of the first declaration of the same
  user, for a percentage split only.
\<close>

definition stored_percentage :: "split_type \<Rightarrow> split list \<Rightarrow> user_id \<Rightarrow> rat option" where
  "stored_percentage st sps u =
     (if st = PERCENTAGE then
        (case filter (\<lambda>s. userId s = u) sps of [] \<Rightarrow> None | s # _ \<Rightarrow> s_percentage s)
      else None)"

definition add_expense ::
  "state \<Rightarrow> expense_data \<Rightarrow> string \<Rightarrow> nat \<Rightarrow> (error + expense option \<times> balance list) \<times> state" where
  "add_expense s d eid now =
     (case groups s (d_groupId d) of
        None \<Rightarrow> (Inl GroupNotFound, s)
      | Some members \<Rightarrow>
          if d_paidBy d \<notin> set members then (Inl PayerNotMember, s)
          else if filter (\<lambda>u. u \<notin> set members) (map userId (d_splits d)) \<noteq> []
          then (Inl (NonMemberParticipant
                  (filter (\<lambda>u. u \<notin> set members) (map userId (d_splits d)))), s)
          else if \<not> valid (validate_expense (d_totalAmount d) (d_splitType d) (d_splits d))
          then (Inl (ValidationFailed
                  (validate_expense (d_totalAmount d) (d_splitType d) (d_splits d))), s)
          else
            (case calculate_splits (d_totalAmount d) (d_splitType d) (d_splits d) of
               Inl e \<Rightarrow> (Inl e, s)
             | Inr calculated_splits \<Rightarrow>
                 (let s1 = s\<lparr>expenses := expenses s @
                              [\<lparr>e_id = eid, e_group_id = d_groupId d,
                                total_amount = d_totalAmount d, paid_by = d_paidBy d,
                                e_split_type = d_splitType d, created_at = now\<rparr>],
                            expense_splits := expense_splits s @
                              map (\<lambda>sp. \<lparr>expense_id = eid, user_id = sh_userId sp,
                                          sr_amount = sh_amount sp,
                                          sr_percentage =
                                            stored_percentage (d_splitType d) (d_splits d)
                                              (sh_userId sp)\<rparr>)
                                calculated_splits\<rparr>;
                      s2 = s1\<lparr>balances :=
                              apply_shares (balances s1) (d_groupId d) (d_paidBy d)
                                calculated_splits\<rparr>
                  in (Inr (get_expense s2 eid, get_group_balances (balances s2) (d_groupId d)),
                      s2))))"

text \<open>
  The replay of the expenses stops at the first expense whose splits cannot be computed;
  the balances written until then stay.
\<close>

fun replay_expenses ::
  "balance_row list \<Rightarrow> group_id \<Rightarrow> expense list \<Rightarrow> error option \<times> balance_row list" where
  "replay_expenses bs g [] = (None, bs)"
| "replay_expenses bs g (e # rest) =
     (case calculate_splits (totalAmount e) (splitType e) (splits e) of
        Inl err \<Rightarrow> (Some err, bs)
      | Inr calculated_splits \<Rightarrow>
          replay_expenses (apply_shares bs g (paidBy e) calculated_splits) g rest)"

definition replay_settlement :: "balance_row list \<Rightarrow> settlement_row \<Rightarrow> balance_row list" where
  "replay_settlement bs st =
     (let current = get_balance_between_users bs (st_group_id st) (st_from_user_id st)
                      (st_to_user_id st)
      in if 0 < current then
           update_balance bs (st_group_id st) (st_from_user_id st) (st_to_user_id st)
             (- min (st_amount st) current)
         else bs)"

definition recalculate_group_balances :: "state \<Rightarrow> group_id \<Rightarrow> error option \<times> state" where
  "recalculate_group_balances s g =
     (case groups s g of
        None \<Rightarrow> (Some GroupNotFound, s)
      | Some members \<Rightarrow>
          (case replay_expenses (clear_group_balances (balances s) g) g
                  (get_group_expenses s g) of
             (Some err, bs) \<Rightarrow> (Some err, s\<lparr>balances := bs\<rparr>)
           | (None, bs) \<Rightarrow>
               (None,
                s\<lparr>balances :=
                    foldl replay_settlement bs
                      (filter (\<lambda>st. st_group_id st = g) (settlements s))\<rparr>)))"

definition delete_expense :: "state \<Rightarrow> string \<Rightarrow> (error + bool) \<times> state" where
  "delete_expense s eid =
     (case get_expense s eid of
        None \<Rightarrow> (Inr False, s)
      | Some e \<Rightarrow>
          (case recalculate_group_balances
                  (s\<lparr>expenses := filter (\<lambda>row. e_id row \<noteq> eid) (expenses s)\<rparr>)
                  (x_groupId e) of
             (Some err, s') \<Rightarrow> (Inl err, s')
           | (None, s') \<Rightarrow> (Inr True, s')))"

section \<open>Settlement service\<close>

record settlement =
  t_id :: string
  t_groupId :: group_id
  t_fromUserId :: user_id
  t_toUserId :: user_id
  t_amount :: rat

record settlement_data =
  sd_groupId :: group_id
  sd_fromUserId :: user_id
  sd_toUserId :: user_id
  sd_amount :: rat

definition map_row_to_settlement :: "settlement_row \<Rightarrow> settlement" where
  "map_row_to_settlement row =
     \<lparr>t_id = st_id row, t_groupId = st_group_id row, t_fromUserId = st_from_user_id row,
      t_toUserId = st_to_user_id row, t_amount = st_amount row\<rparr>"

definition get_settlement :: "state \<Rightarrow> string \<Rightarrow> settlement option" where
  "get_settlement s sid =
     (case filter (\<lambda>row. st_id row = sid) (settlements s) of
        [] \<Rightarrow> None
      | row # _ \<Rightarrow> Some (map_row_to_settlement row))"

text \<open>
  The net position \<^verbatim>\<open>record_settlement\<close> computes for a user: an entry the user owes is
  subtracted, otherwise an entry owed to the user is added.
\<close>

fun user_net :: "user_id \<Rightarrow> balance list \<Rightarrow> rat" where
  "user_net u [] = 0"
| "user_net u (b # rest) =
     (if fromUserId b = u then - b_amount b
      else if toUserId b = u then b_amount b else 0) + user_net u rest"

definition record_settlement ::
  "state \<Rightarrow> settlement_data \<Rightarrow> string \<Rightarrow> (error + settlement option \<times> rat) \<times> state" where
  "record_settlement s d sid =
     (case groups s (sd_groupId d) of
        None \<Rightarrow> (Inl GroupNotFound, s)
      | Some member_ids \<Rightarrow>
          if sd_fromUserId d \<notin> set member_ids \<or> sd_toUserId d \<notin> set member_ids
          then (Inl NotAMember, s)
          else if sd_amount d \<le> 0 then (Inl NonPositiveAmount, s)
          else
            (let all_balances = get_group_balances (balances s) (sd_groupId d);
                 from_user_net = user_net (sd_fromUserId d) all_balances;
                 to_user_net = user_net (sd_toUserId d) all_balances
             in if 0 \<le> from_user_net then (Inl PayerNotInDebt, s)
                else if to_user_net \<le> 0 then (Inl RecipientNotOwed, s)
                else if min \<bar>from_user_net\<bar> \<bar>to_user_net\<bar> + 1 / 100 < sd_amount d
                then (Inl SettlementExceedsBalance, s)
                else
                  (let s1 = s\<lparr>settlements := settlements s @
                               [\<lparr>st_id = sid, st_group_id = sd_groupId d,
                                 st_from_user_id = sd_fromUserId d,
                                 st_to_user_id = sd_toUserId d,
                                 st_amount = sd_amount d\<rparr>]\<rparr>;
                       s2 = s1\<lparr>balances :=
                               apply_smart_settlement (balances s1) (sd_groupId d)
                                 (sd_fromUserId d) (sd_toUserId d) (sd_amount d)\<rparr>;
                       remaining_balance =
                         user_net (sd_fromUserId d)
                           (get_group_balances (balances s2) (sd_groupId d))
                   in (Inr (get_settlement s2 sid, py_round2 remaining_balance), s2))))"


section \<open>Properties of the ledger\<close>

text \<open>Every stored record has a positive amount.\<close>

definition all_positive :: "balance_row list \<Rightarrow> bool" where
  "all_positive bs \<longleftrightarrow> list_all (\<lambda>row. 0 < amount row) bs"

definition has_row :: "balance_row list \<Rightarrow> group_id \<Rightarrow> user_id \<Rightarrow> user_id \<Rightarrow> bool" where
  "has_row bs g f t \<longleftrightarrow> list_ex (is_key g f t) bs"

text \<open>
  A positive record from \<open>a\<close> to \<open>b\<close> and a positive record from \<open>b\<close> to \<open>a\<close> are stored
  together.
\<close>

definition both_directions :: "balance_row list \<Rightarrow> group_id \<Rightarrow> user_id \<Rightarrow> user_id \<Rightarrow> bool" where
  "both_directions bs g a b \<longleftrightarrow>
     list_ex (\<lambda>row. is_key g a b row \<and> 0 < amount row) bs \<and>
     list_ex (\<lambda>row. is_key g b a row \<and> 0 < amount row) bs"

text \<open>No record has a record of the opposite direction beside it.\<close>

definition net_reduced :: "balance_row list \<Rightarrow> bool" where
  "net_reduced bs \<longleftrightarrow>
     list_all (\<lambda>row. \<not> has_row bs (group_id row) (to_user_id row) (from_user_id row)) bs"

definition ledger_ok :: "balance_row list \<Rightarrow> bool" where
  "ledger_ok bs \<longleftrightarrow> all_positive bs \<and> net_reduced bs"

text \<open>
  The net position of a user: what the user is owed minus what the user owes, over a list
  of balance entries and over the stored records of a group.
\<close>

definition net_of :: "user_id \<Rightarrow> balance list \<Rightarrow> rat" where
  "net_of u bals =
     sum_list (map b_amount (filter (\<lambda>b. toUserId b = u) bals)) -
     sum_list (map b_amount (filter (\<lambda>b. fromUserId b = u) bals))"


text \<open>
  The states the services can reach from an empty ledger: expenses are added, settlements
  recorded, expenses deleted and groups recalculated, with any arguments; the group
  service may change the groups in between.
\<close>

inductive reachable :: "state \<Rightarrow> bool" where
  empty_ledger:
    "expenses s = [] \<Longrightarrow> expense_splits s = [] \<Longrightarrow> settlements s = [] \<Longrightarrow> balances s = []
     \<Longrightarrow> reachable s"
| expense_added: "reachable s \<Longrightarrow> reachable (snd (add_expense s d eid now))"
| settlement_recorded: "reachable s \<Longrightarrow> reachable (snd (record_settlement s d sid))"
| expense_deleted: "reachable s \<Longrightarrow> reachable (snd (delete_expense s eid))"
| recalculated: "reachable s \<Longrightarrow> reachable (snd (recalculate_group_balances s g))"
| groups_changed: "reachable s \<Longrightarrow> reachable (s\<lparr>groups := gs\<rparr>)"

section \<open>Example data\<close>

text \<open>A group of two with an empty ledger, and the declarations used on it.\<close>

definition alice :: user_id where "alice = ''alice''"
definition bob :: user_id where "bob = ''bob''"
definition trip :: group_id where "trip = ''trip''"

definition participant :: "user_id \<Rightarrow> split" where
  "participant u = \<lparr>userId = u, s_amount = None, s_percentage = None\<rparr>"

definition exact_part :: "user_id \<Rightarrow> rat \<Rightarrow> split" where
  "exact_part u a = \<lparr>userId = u, s_amount = Some a, s_percentage = None\<rparr>"


definition empty_state :: state where
  "empty_state =
     \<lparr>groups = [trip \<mapsto> [alice, bob]], expenses = [], expense_splits = [],
      settlements = [], balances = []\<rparr>"

definition dinner :: expense_data where
  "dinner =
     \<lparr>d_groupId = trip, d_totalAmount = 100, d_paidBy = alice, d_splitType = EQUAL,
      d_splits = [participant alice, participant bob]\<rparr>"

definition owes :: "user_id \<Rightarrow> user_id \<Rightarrow> rat \<Rightarrow> balance_row" where
  "owes f t a = \<lparr>group_id = trip, from_user_id = f, to_user_id = t, amount = a\<rparr>"

text \<open>An expense of less than half a cent, declared with exact amounts.\<close>

definition crumbs :: expense_data where
  "crumbs =
     \<lparr>d_groupId = trip, d_totalAmount = 1 / 250, d_paidBy = alice, d_splitType = EXACT,
      d_splits = [exact_part alice 0, exact_part bob (1 / 250)]\<rparr>"


text \<open>A group of three, and a second expense paid by its third member.\<close>

definition carol :: user_id where "carol = ''carol''"

definition three_state :: state where
  "three_state =
     \<lparr>groups = [trip \<mapsto> [alice, bob, carol]], expenses = [], expense_splits = [],
      settlements = [], balances = []\<rparr>"

definition lunch :: expense_data where
  "lunch =
     \<lparr>d_groupId = trip, d_totalAmount = 60, d_paidBy = carol, d_splitType = EQUAL,
      d_splits = [participant carol, participant bob]\<rparr>"

definition two_expenses :: state where
  "two_expenses =
     snd (add_expense (snd (add_expense three_state dinner ''e1'' 1)) lunch ''e2'' 2)"

section \<open>The recalculation as the specification words it\<close>

text \<open>The records of one group.\<close>

definition group_rows :: "balance_row list \<Rightarrow> group_id \<Rightarrow> balance_row list" where
  "group_rows bs g = filter (\<lambda>row. group_id row = g) bs"

text \<open>
  One call of the update engine per participant who is not the payer.
\<close>

definition spec_apply_expense ::
  "balance_row list \<Rightarrow> group_id \<Rightarrow> user_id \<Rightarrow> share list \<Rightarrow> balance_row list" where
  "spec_apply_expense bs g payer shares =
     foldl (\<lambda>acc sp. update_balance acc g (sh_userId sp) payer (sh_amount sp)) bs
       (filter (\<lambda>sp. sh_userId sp \<noteq> payer) shares)"

fun spec_replay_expenses ::
  "balance_row list \<Rightarrow> group_id \<Rightarrow> expense list \<Rightarrow> error option \<times> balance_row list" where
  "spec_replay_expenses bs g [] = (None, bs)"
| "spec_replay_expenses bs g (e # rest) =
     (case calculate_splits (totalAmount e) (splitType e) (splits e) of
        Inl err \<Rightarrow> (Some err, bs)
      | Inr shares \<Rightarrow> spec_replay_expenses (spec_apply_expense bs g (paidBy e) shares) g rest)"

text \<open>
  The reversal of a settlement: a positive balance from payer to recipient is reduced by
  the smaller of the settlement amount and that balance; without one nothing changes.
\<close>

definition spec_reverse_settlement :: "balance_row list \<Rightarrow> settlement_row \<Rightarrow> balance_row list" where
  "spec_reverse_settlement bs st =
     (let current = get_balance_between_users bs (st_group_id st) (st_from_user_id st)
                      (st_to_user_id st)
      in if 0 < current then
           set_balance bs (st_group_id st) (st_from_user_id st) (st_to_user_id st)
             (current - min (st_amount st) current)
         else bs)"

text \<open>
  Clear the group, replay the given expenses in the given order, then reverse every
  settlement of the group.
\<close>

definition spec_recalculate :: "state \<Rightarrow> group_id \<Rightarrow> expense list \<Rightarrow> error option \<times> state" where
  "spec_recalculate s g es =
     (case groups s g of
        None \<Rightarrow> (Some GroupNotFound, s)
      | Some members \<Rightarrow>
          (case spec_replay_expenses (clear_group_balances (balances s) g) g es of
             (Some err, bs) \<Rightarrow> (Some err, s\<lparr>balances := bs\<rparr>)
           | (None, bs) \<Rightarrow>
               (None,
                s\<lparr>balances :=
                    foldl spec_reverse_settlement bs
                      (filter (\<lambda>st. st_group_id st = g) (settlements s))\<rparr>)))"

text \<open>The expenses of a group in creation order, the oldest first.\<close>

definition creation_order :: "state \<Rightarrow> group_id \<Rightarrow> expense list" where
  "creation_order s g =
     map (\<lambda>row. map_row_to_expense row (load_splits s (e_id row)))
       (sort_key created_at (filter (\<lambda>row. e_group_id row = g) (expenses s)))"

section \<open>Notions for the simplifier\<close>

text \<open>An amount of whole cents: rounding to two decimals does not change it.\<close>

definition cents :: "rat \<Rightarrow> bool" where
  "cents x \<longleftrightarrow> py_round2 x = x"



section \<open>The ledger invariant\<close>

lemma set_set_balance:
  "set (set_balance bs g f t a) =
     {row \<in> set bs. \<not> is_key g f t row} \<union>
     (if 0 < a then {\<lparr>group_id = g, from_user_id = f, to_user_id = t, amount = a\<rparr>} else {})"
  by (auto simp: set_balance_def Let_def)

lemma all_positive_set_balance: "all_positive bs \<Longrightarrow> all_positive (set_balance bs g f t a)"
  by (auto simp: all_positive_def list_all_iff set_set_balance)

lemma has_row_set_balance:
  "has_row (set_balance bs g f t a) g' f' t' \<longleftrightarrow>
     (if g' = g \<and> f' = f \<and> t' = t then 0 < a else has_row bs g' f' t')"
  by (auto simp: has_row_def list_ex_iff set_set_balance is_key_def)

lemma filter_eq_Cons_props: "filter P xs = x # ys \<Longrightarrow> x \<in> set xs \<and> P x"
proof -
  assume "filter P xs = x # ys"
  then have "x \<in> set (filter P xs)" by simp
  then show ?thesis by simp
qed

lemma get_balance_cases:
  obtains (absent) "\<not> has_row bs g f t" "get_balance_between_users bs g f t = 0"
  | (present) row where "row \<in> set bs" "is_key g f t row"
      "get_balance_between_users bs g f t = amount row"
proof (cases "filter (is_key g f t) bs")
  case Nil
  then have "\<not> has_row bs g f t"
    by (simp add: has_row_def list_ex_iff filter_empty_conv)
  with Nil absent show ?thesis by (simp add: get_balance_between_users_def)
next
  case (Cons row rest)
  from filter_eq_Cons_props[OF Cons] have "row \<in> set bs" "is_key g f t row" by simp_all
  moreover from Cons have "get_balance_between_users bs g f t = amount row"
    by (simp add: get_balance_between_users_def)
  ultimately show ?thesis by (rule present)
qed

lemma get_balance_pos_iff:
  "all_positive bs \<Longrightarrow> 0 < get_balance_between_users bs g f t \<longleftrightarrow> has_row bs g f t"
  by (cases bs g f t rule: get_balance_cases)
     (auto simp: all_positive_def list_all_iff has_row_def list_ex_iff)

lemma get_balance_nonneg: "all_positive bs \<Longrightarrow> 0 \<le> get_balance_between_users bs g f t"
  by (cases bs g f t rule: get_balance_cases)
     (auto simp: all_positive_def list_all_iff less_imp_le)

lemma all_positive_update_balance:
  "all_positive bs \<Longrightarrow> all_positive (update_balance bs g f t a)"
  by (simp add: update_balance_def Let_def all_positive_set_balance)

lemma has_row_update_balance_other:
  "has_row (update_balance bs g f t a) g' f' t' \<Longrightarrow>
     has_row bs g' f' t' \<or> (g' = g \<and> ((f' = f \<and> t' = t) \<or> (f' = t \<and> t' = f)))"
  by (auto simp: update_balance_def Let_def has_row_set_balance split: if_splits)

lemma net_reduced_iff:
  "net_reduced bs \<longleftrightarrow> (\<forall>g f t. has_row bs g f t \<longrightarrow> \<not> has_row bs g t f)"
  by (auto simp: net_reduced_def list_all_iff has_row_def list_ex_iff is_key_def)

lemma ledger_ok_update_balance:
  assumes "ledger_ok bs" "f \<noteq> t"
  shows "ledger_ok (update_balance bs g f t a)"
proof -
  from assms have pos: "all_positive bs" and nr: "\<And>g f t. has_row bs g f t \<Longrightarrow> \<not> has_row bs g t f"
    by (auto simp: ledger_ok_def net_reduced_iff)
  have rev: "0 < get_balance_between_users bs g t f \<longleftrightarrow> has_row bs g t f"
    by (rule get_balance_pos_iff[OF pos])
  have "net_reduced (update_balance bs g f t a)"
    unfolding net_reduced_iff update_balance_def Let_def
    using nr assms(2) rev
    by (auto simp: has_row_set_balance split: if_splits)
  with pos show ?thesis by (simp add: ledger_ok_def all_positive_update_balance)
qed

lemma ledger_ok_Nil: "ledger_ok []"
  by (simp add: ledger_ok_def all_positive_def net_reduced_def)

lemma ledger_ok_has_row_mono:
  assumes "ledger_ok bs" "all_positive bs'"
    and "\<And>g f t. has_row bs' g f t \<Longrightarrow> has_row bs g f t"
  shows "ledger_ok bs'"
  using assms unfolding ledger_ok_def net_reduced_iff by blast

lemma ledger_ok_filter: "ledger_ok bs \<Longrightarrow> ledger_ok (filter P bs)"
  by (rule ledger_ok_has_row_mono[where bs = bs])
     (auto simp: ledger_ok_def all_positive_def list_all_iff has_row_def list_ex_iff)

lemma ledger_ok_no_self: "ledger_ok bs \<Longrightarrow> has_row bs g f t \<Longrightarrow> f \<noteq> t"
  unfolding ledger_ok_def net_reduced_iff by blast

lemma ledger_ok_apply_shares:
  "ledger_ok bs \<Longrightarrow> ledger_ok (apply_shares bs g payer shares)"
  by (induction shares arbitrary: bs) (simp_all add: ledger_ok_update_balance)

lemma ledger_ok_replay_expenses:
  "ledger_ok bs \<Longrightarrow> ledger_ok (snd (replay_expenses bs g es))"
  by (induction es arbitrary: bs) (simp_all add: ledger_ok_apply_shares split: sum.splits)

lemma ledger_ok_replay_settlement:
  assumes "ledger_ok bs"
  shows "ledger_ok (replay_settlement bs st)"
proof (cases "0 < get_balance_between_users bs (st_group_id st) (st_from_user_id st) (st_to_user_id st)")
  case True
  with assms have "has_row bs (st_group_id st) (st_from_user_id st) (st_to_user_id st)"
    by (simp add: ledger_ok_def get_balance_pos_iff)
  with assms have "st_from_user_id st \<noteq> st_to_user_id st"
    by (rule ledger_ok_no_self)
  with assms True show ?thesis
    by (simp add: replay_settlement_def Let_def ledger_ok_update_balance)
next
  case False
  with assms show ?thesis by (simp add: replay_settlement_def Let_def)
qed

lemma ledger_ok_foldl_replay_settlement:
  "ledger_ok bs \<Longrightarrow> ledger_ok (foldl replay_settlement bs sts)"
  by (induction sts arbitrary: bs) (simp_all add: ledger_ok_replay_settlement)

lemma all_positive_reduce_each:
  "all_positive bs \<Longrightarrow> all_positive (reduce_each bs g ds r)"
  by (induction ds arbitrary: bs r) (simp_all add: Let_def all_positive_set_balance)

lemma has_row_reduce_each:
  "has_row (reduce_each bs g ds r) g' f' t' \<Longrightarrow>
     has_row bs g' f' t' \<or> (g' = g \<and> (\<exists>d\<in>set ds. f' = fromUserId d \<and> t' = toUserId d))"
proof (induction ds arbitrary: bs r)
  case Nil
  then show ?case by simp
next
  case (Cons d ds)
  show ?case
  proof (cases "r \<le> 0")
    case True
    with Cons.prems show ?thesis by simp
  next
    case False
    with Cons.prems Cons.IH show ?thesis
      by (fastforce simp: Let_def has_row_set_balance split: if_splits)
  qed
qed

lemma get_group_balances_has_row:
  "b \<in> set (get_group_balances bs g) \<Longrightarrow> has_row bs g (fromUserId b) (toUserId b)"
  by (auto simp: get_group_balances_def map_row_to_balance_def has_row_def list_ex_iff is_key_def)

lemma has_row_apply_smart_settlement:
  assumes "has_row (apply_smart_settlement bs g p r a) g' f' t'"
  shows "has_row bs g' f' t'"
proof -
  let ?all = "get_group_balances bs g"
  let ?pd = "filter (\<lambda>b. fromUserId b = p) ?all"
  let ?rc = "filter (\<lambda>b. toUserId b = r) ?all"
  define bs1 where "bs1 = (if 0 < sum_list (map b_amount ?pd) then reduce_each bs g ?pd a else bs)"
  have one: "has_row bs1 g' f' t' \<Longrightarrow> has_row bs g' f' t'"
    unfolding bs1_def
    by (auto dest!: has_row_reduce_each get_group_balances_has_row split: if_splits)
  have "apply_smart_settlement bs g p r a =
          (if 0 < sum_list (map b_amount ?rc) then reduce_each bs1 g ?rc a else bs1)"
    by (simp add: apply_smart_settlement_def Let_def bs1_def)
  with assms have "has_row bs1 g' f' t' \<or> (g' = g \<and> (\<exists>d\<in>set ?rc. f' = fromUserId d \<and> t' = toUserId d))"
    by (auto dest!: has_row_reduce_each split: if_splits)
  then show ?thesis
  proof
    assume "has_row bs1 g' f' t'"
    then show ?thesis by (rule one)
  next
    assume "g' = g \<and> (\<exists>d\<in>set ?rc. f' = fromUserId d \<and> t' = toUserId d)"
    then show ?thesis by (auto dest: get_group_balances_has_row)
  qed
qed

lemma all_positive_apply_smart_settlement:
  "all_positive bs \<Longrightarrow> all_positive (apply_smart_settlement bs g p r a)"
  by (simp add: apply_smart_settlement_def Let_def all_positive_reduce_each)

lemma ledger_ok_apply_smart_settlement:
  "ledger_ok bs \<Longrightarrow> ledger_ok (apply_smart_settlement bs g p r a)"
  by (rule ledger_ok_has_row_mono[where bs = bs])
     (auto simp: ledger_ok_def all_positive_apply_smart_settlement
       dest: has_row_apply_smart_settlement)

lemma ledger_ok_add_expense:
  "ledger_ok (balances s) \<Longrightarrow> ledger_ok (balances (snd (add_expense s d eid now)))"
  by (simp add: add_expense_def Let_def ledger_ok_apply_shares split: option.splits sum.splits)

lemma ledger_ok_record_settlement:
  "ledger_ok (balances s) \<Longrightarrow> ledger_ok (balances (snd (record_settlement s d sid)))"
  by (simp add: record_settlement_def Let_def ledger_ok_apply_smart_settlement
      split: option.splits)

lemma ledger_ok_recalculate:
  assumes "ledger_ok (balances s)"
  shows "ledger_ok (balances (snd (recalculate_group_balances s g)))"
proof (cases "groups s g")
  case None
  with assms show ?thesis by (simp add: recalculate_group_balances_def)
next
  case (Some members)
  let ?r = "replay_expenses (clear_group_balances (balances s) g) g (get_group_expenses s g)"
  have ok: "ledger_ok (snd ?r)"
    using assms by (simp add: ledger_ok_replay_expenses clear_group_balances_def ledger_ok_filter)
  obtain e bs where r: "?r = (e, bs)" by (cases ?r)
  with ok have "ledger_ok bs" by simp
  with Some r show ?thesis
    by (cases e) (simp_all add: recalculate_group_balances_def ledger_ok_foldl_replay_settlement)
qed

lemma ledger_ok_delete_expense:
  assumes "ledger_ok (balances s)"
  shows "ledger_ok (balances (snd (delete_expense s eid)))"
proof (cases "get_expense s eid")
  case None
  with assms show ?thesis by (simp add: delete_expense_def)
next
  case (Some e)
  let ?s = "s\<lparr>expenses := filter (\<lambda>row. e_id row \<noteq> eid) (expenses s)\<rparr>"
  from assms have "ledger_ok (balances ?s)" by simp
  then have "ledger_ok (balances (snd (recalculate_group_balances ?s (x_groupId e))))"
    by (rule ledger_ok_recalculate)
  with Some show ?thesis
    by (auto simp: delete_expense_def split: prod.splits option.splits)
qed

lemma reachable_ledger_ok: "reachable s \<Longrightarrow> ledger_ok (balances s)"
proof (induction rule: reachable.induct)
  case (empty_ledger s)
  then show ?case by (simp add: ledger_ok_Nil)
next
  case (expense_added s d eid now)
  then show ?case by (simp add: ledger_ok_add_expense)
next
  case (settlement_recorded s d sid)
  then show ?case by (simp add: ledger_ok_record_settlement)
next
  case (expense_deleted s eid)
  then show ?case by (simp add: ledger_ok_delete_expense)
next
  case (recalculated s g)
  then show ?case by (simp add: ledger_ok_recalculate)
next
  case (groups_changed s gs)
  then show ?case by simp
qed

section \<open>Rounding to cents\<close>

lemma py_round2_cases:
  obtains k :: int where "py_round2 x = of_int k / 100" "\<bar>of_int k - x * 100\<bar> \<le> 1 / 2"
    "\<lfloor>x * 100\<rfloor> \<le> k" "k \<le> \<lfloor>x * 100\<rfloor> + 1"
proof -
  let ?f = "\<lfloor>x * 100\<rfloor>"
  let ?d = "x * 100 - of_int ?f"
  have lo: "0 \<le> ?d" and hi: "?d < 1" by linarith+
  define k where "k = (if ?d < 1 / 2 then ?f else if 1 / 2 < ?d then ?f + 1
                       else if even ?f then ?f else ?f + 1)"
  have 1: "py_round2 x = of_int k / 100"
    by (simp add: py_round2_def Let_def k_def)
  have 2: "\<bar>of_int k - x * 100\<bar> \<le> 1 / 2"
    using lo hi by (auto simp: k_def)
  have 3: "?f \<le> k" "k \<le> ?f + 1" by (auto simp: k_def)
  from 1 2 3 that show thesis by blast
qed


lemma py_round2_nonneg: "0 \<le> x \<Longrightarrow> 0 \<le> py_round2 x"
proof -
  assume x: "0 \<le> x"
  obtain k :: int where k: "py_round2 x = of_int k / 100" "\<lfloor>x * 100\<rfloor> \<le> k"
    by (rule py_round2_cases)
  from x have "0 \<le> \<lfloor>x * 100\<rfloor>" by simp
  with k(2) have "0 \<le> k" by linarith
  with k(1) show ?thesis by simp
qed

lemma py_round2_of_int: "py_round2 (of_int k / 100) = of_int k / 100"
  by (simp add: py_round2_def Let_def)

lemma py_round2_idem: "py_round2 (py_round2 x) = py_round2 x"
proof -
  obtain k :: int where "py_round2 x = of_int k / 100"
    by (rule py_round2_cases)
  then show ?thesis by (simp only: py_round2_of_int)
qed


section \<open>The update engine\<close>

lemma get_balance_set_balance_same:
  "get_balance_between_users (set_balance bs g f t a) g f t = (if 0 < a then a else 0)"
  by (simp add: get_balance_between_users_def set_balance_def Let_def is_key_def)

lemma filter_key_set_balance_other:
  "\<not> (g' = g \<and> f' = f \<and> t' = t) \<Longrightarrow>
   filter (is_key g' f' t') (set_balance bs g f t a) = filter (is_key g' f' t') bs"
  by (auto simp: set_balance_def Let_def is_key_def intro!: filter_cong)

lemma get_balance_set_balance_other:
  "\<not> (g' = g \<and> f' = f \<and> t' = t) \<Longrightarrow>
   get_balance_between_users (set_balance bs g f t a) g' f' t' =
   get_balance_between_users bs g' f' t'"
  by (simp add: get_balance_between_users_def filter_key_set_balance_other)

lemma filter_unrelated_set_balance:
  assumes "\<And>row. P row \<Longrightarrow> \<not> is_key g f t row"
  shows "filter P (set_balance bs g f t a) = filter P bs"
proof -
  have new: "\<not> P \<lparr>group_id = g, from_user_id = f, to_user_id = t, amount = a\<rparr>"
    using assms[of "\<lparr>group_id = g, from_user_id = f, to_user_id = t, amount = a\<rparr>"]
    by (auto simp: is_key_def)
  have "filter P (filter (\<lambda>row. \<not> is_key g f t row) bs) = filter P bs"
    using assms by (auto intro!: filter_cong)
  with new show ?thesis by (simp add: set_balance_def Let_def)
qed

lemma update_balance_unrelated:
  assumes "\<And>row. P row \<Longrightarrow> \<not> is_key g f t row \<and> \<not> is_key g t f row"
  shows "filter P (update_balance bs g f t a) = filter P bs"
  using assms by (simp add: update_balance_def Let_def filter_unrelated_set_balance)

text \<open>
  C2. For a positive \<open>delta\<close> and two different users, \<open>update_balance\<close> nets the transfer
  against the stored balance of the opposite direction: a larger reverse balance shrinks
  by \<open>delta\<close> and the forward direction is untouched; a smaller positive one is deleted
  and the forward balance is set to the difference; an equal one is deleted and the
  forward direction is untouched; with no reverse balance the forward balance grows by
  \<open>delta\<close>, its record being created if absent. No other record changes.
\<close>

theorem update_balance_netting:
  fixes bs :: "balance_row list" and g :: group_id and debtor creditor :: user_id
    and delta :: rat
  assumes "0 < delta" and "debtor \<noteq> creditor" and "all_positive bs"
  defines "reverse \<equiv> get_balance_between_users bs g creditor debtor"
    and "bs' \<equiv> update_balance bs g debtor creditor delta"
  shows "(delta < reverse \<longrightarrow>
            get_balance_between_users bs' g creditor debtor = reverse - delta \<and>
            filter (is_key g debtor creditor) bs' = filter (is_key g debtor creditor) bs) \<and>
         (0 < reverse \<and> reverse < delta \<longrightarrow>
            \<not> has_row bs' g creditor debtor \<and>
            get_balance_between_users bs' g debtor creditor = delta - reverse) \<and>
         (reverse = delta \<longrightarrow>
            \<not> has_row bs' g creditor debtor \<and>
            filter (is_key g debtor creditor) bs' = filter (is_key g debtor creditor) bs) \<and>
         (reverse = 0 \<longrightarrow>
            \<not> has_row bs' g creditor debtor \<and> has_row bs' g debtor creditor \<and>
            get_balance_between_users bs' g debtor creditor =
              get_balance_between_users bs g debtor creditor + delta) \<and>
         filter (\<lambda>row. \<not> is_key g debtor creditor row \<and> \<not> is_key g creditor debtor row) bs' =
         filter (\<lambda>row. \<not> is_key g debtor creditor row \<and> \<not> is_key g creditor debtor row) bs"
proof -
  have cur: "0 \<le> get_balance_between_users bs g debtor creditor"
    using assms(3) by (rule get_balance_nonneg)
  have absent: "reverse = 0 \<Longrightarrow> \<not> has_row bs g creditor debtor"
    using get_balance_pos_iff[OF assms(3), of g creditor debtor] by (simp add: reverse_def)
  have neq: "\<not> (g = g \<and> debtor = creditor \<and> creditor = debtor)"
    "\<not> (g = g \<and> creditor = debtor \<and> debtor = creditor)"
    using assms(2) by auto
  have other:
    "filter (\<lambda>row. \<not> is_key g debtor creditor row \<and> \<not> is_key g creditor debtor row) bs' =
     filter (\<lambda>row. \<not> is_key g debtor creditor row \<and> \<not> is_key g creditor debtor row) bs"
    unfolding bs'_def by (rule update_balance_unrelated) simp
  show ?thesis
    using assms(1) cur absent neq
    unfolding other
    unfolding bs'_def update_balance_def Let_def reverse_def[symmetric]
    by (auto simp: get_balance_set_balance_same get_balance_set_balance_other
        filter_key_set_balance_other has_row_set_balance update_balance_unrelated)
qed

lemma alice_neq_bob: "alice \<noteq> bob" "bob \<noteq> alice"
  by (simp_all add: alice_def bob_def)

theorem update_balance_netting_witness:
  "(0::rat) < 80 \<and> alice \<noteq> bob \<and> all_positive [owes bob alice 50] \<and>
   get_balance_between_users [owes bob alice 50] trip bob alice = 50 \<and>
   \<not> has_row (update_balance [owes bob alice 50] trip alice bob 80) trip bob alice \<and>
   get_balance_between_users (update_balance [owes bob alice 50] trip alice bob 80)
     trip alice bob = 30"
proof -
  have pos: "all_positive [owes bob alice 50]"
    by (simp add: all_positive_def owes_def)
  have rev: "get_balance_between_users [owes bob alice 50] trip bob alice = 50"
    by (simp add: get_balance_between_users_def owes_def is_key_def)
  from update_balance_netting[where delta = 80 and debtor = alice and creditor = bob
      and bs = "[owes bob alice 50]" and g = trip, OF _ alice_neq_bob(1) pos] rev pos
  show ?thesis by (simp add: alice_neq_bob)
qed

section \<open>No balance in both directions\<close>

text \<open>
  C1. In every state reachable from an empty ledger by adding expenses, recording
  settlements, deleting expenses and recalculating, no group holds a positive balance
  from \<open>a\<close> to \<open>b\<close> together with a positive balance from \<open>b\<close> to \<open>a\<close>.
\<close>

theorem no_double_direction: "reachable s \<Longrightarrow> \<not> both_directions (balances s) g a b"
proof
  assume r: "reachable s" and b: "both_directions (balances s) g a b"
  from b have "has_row (balances s) g a b" "has_row (balances s) g b a"
    by (auto simp: both_directions_def has_row_def list_ex_iff)
  moreover from r have "net_reduced (balances s)"
    using reachable_ledger_ok by (simp add: ledger_ok_def)
  ultimately show False by (simp add: net_reduced_iff)
qed

lemma dinner_balances:
  "balances (snd (add_expense empty_state dinner eid now)) = [owes bob alice 50]"
  by (simp add: add_expense_def empty_state_def dinner_def participant_def valid_def
      validate_expense_def calculate_splits_def py_round2_def Let_def alice_neq_bob
      update_balance_def get_balance_between_users_def set_balance_def is_key_def owes_def)

theorem no_double_direction_witness:
  "reachable (snd (add_expense empty_state dinner ''e1'' 1)) \<and>
   balances (snd (add_expense empty_state dinner ''e1'' 1)) = [owes bob alice 50] \<and>
   \<not> both_directions (balances (snd (add_expense empty_state dinner ''e1'' 1))) trip bob alice"
proof -
  have "reachable empty_state"
    by (rule empty_ledger) (simp_all add: empty_state_def)
  then have r: "reachable (snd (add_expense empty_state dinner ''e1'' 1))"
    by (rule expense_added)
  from no_double_direction[OF r, of trip bob alice] r show ?thesis
    by (simp add: dinner_balances)
qed

section \<open>The scenario of two members\<close>

lemma py_round2_50: "py_round2 50 = 50"
  by (simp add: py_round2_def Let_def)

text \<open>
  C6. In a group of two, \<open>a\<close> and \<open>b\<close>, with an empty ledger, an expense of 100 paid by
  \<open>a\<close> and split equally leaves the single record that \<open>b\<close> owes \<open>a\<close> 50; the settlement
  of 50 from \<open>b\<close> to \<open>a\<close> is then accepted, reports a remaining balance of 0, and leaves
  no record in the ledger, so both net positions are 0.
\<close>

theorem two_member_settlement:
  fixes s :: state and g :: group_id and a b :: user_id and eid sid :: string and now :: nat
  assumes "a \<noteq> b" and "groups s g = Some [a, b]" and "balances s = []"
  defines "s1 \<equiv> snd (add_expense s
      \<lparr>d_groupId = g, d_totalAmount = 100, d_paidBy = a, d_splitType = EQUAL,
       d_splits = [participant a, participant b]\<rparr> eid now)"
  defines "res \<equiv> record_settlement s1
      \<lparr>sd_groupId = g, sd_fromUserId = b, sd_toUserId = a, sd_amount = 50\<rparr> sid"
  shows "balances s1 = [\<lparr>group_id = g, from_user_id = b, to_user_id = a, amount = 50\<rparr>] \<and>
         (\<exists>st. fst res = Inr (st, 0)) \<and>
         balances (snd res) = [] \<and>
         get_group_balances (balances (snd res)) g = [] \<and>
         net_of b (get_group_balances (balances (snd res)) g) = 0 \<and>
         net_of a (get_group_balances (balances (snd res)) g) = 0"
proof -
  have b1: "balances s1 = [\<lparr>group_id = g, from_user_id = b, to_user_id = a, amount = 50\<rparr>]"
    using assms(1-3) unfolding s1_def
    by (simp add: add_expense_def participant_def valid_def validate_expense_def
        calculate_splits_def py_round2_50 Let_def update_balance_def
        get_balance_between_users_def set_balance_def is_key_def)
  have g1: "groups s1 g = Some [a, b]"
    using assms(1-3) unfolding s1_def
    by (simp add: add_expense_def participant_def valid_def validate_expense_def
        calculate_splits_def Let_def)
  have gb: "get_group_balances (balances s1) g =
              [\<lparr>groupId = g, fromUserId = b, toUserId = a, b_amount = 50\<rparr>]"
    by (simp add: b1 get_group_balances_def map_row_to_balance_def py_round2_50)
  have sm: "apply_smart_settlement (balances s1) g b a 50 = []"
    by (simp add: apply_smart_settlement_def gb Let_def) (simp add: b1 set_balance_def is_key_def)
  have zero: "py_round2 0 = 0" by (simp add: py_round2_def)
  have nil: "get_group_balances [] g = []" by (simp add: get_group_balances_def)
  have r: "\<exists>st. res = (Inr (st, 0), s1\<lparr>settlements := settlements s1 @
        [\<lparr>st_id = sid, st_group_id = g, st_from_user_id = b, st_to_user_id = a,
          st_amount = 50\<rparr>], balances := []\<rparr>)"
    using assms(1) unfolding res_def
    by (simp add: record_settlement_def g1 gb Let_def sm nil zero)
  then show ?thesis
    using b1 by (auto simp: get_group_balances_def net_of_def)
qed

theorem two_member_settlement_witness:
  "alice \<noteq> bob \<and> groups empty_state trip = Some [alice, bob] \<and> balances empty_state = [] \<and>
   balances (snd (record_settlement (snd (add_expense empty_state dinner ''e1'' 1))
      \<lparr>sd_groupId = trip, sd_fromUserId = bob, sd_toUserId = alice, sd_amount = 50\<rparr> ''s1'')) = []"
proof -
  have n: "alice \<noteq> bob" by (simp add: alice_def bob_def)
  have g: "groups empty_state trip = Some [alice, bob]" by (simp add: empty_state_def)
  have e: "balances empty_state = []" by (simp add: empty_state_def)
  from two_member_settlement[OF n g e, of "''e1''" 1 "''s1''"] n g e
  show ?thesis by (simp add: dinner_def)
qed

section \<open>Rejected settlements\<close>



lemma reachable_dinner: "reachable (snd (add_expense empty_state dinner eid now))"
  by (rule expense_added, rule empty_ledger) (simp_all add: empty_state_def)





section \<open>Stored and reported amounts\<close>

lemma get_group_balances_rows:
  "b \<in> set (get_group_balances bs g) \<longleftrightarrow>
     (\<exists>row\<in>set bs. group_id row = g \<and> 0 < amount row \<and> b = map_row_to_balance row)"
  by (auto simp: get_group_balances_def)

lemma crumbs_balances:
  "balances (snd (add_expense empty_state crumbs eid now)) = [owes bob alice (1 / 250)]"
  by (simp add: add_expense_def empty_state_def crumbs_def exact_part_def valid_def
      validate_expense_def get_amount_def calculate_splits_def Let_def alice_neq_bob
      update_balance_def get_balance_between_users_def set_balance_def is_key_def owes_def)

lemma py_round2_crumb: "py_round2 (1 / 250) = 0"
  by code_simp

theorem reported_amount_zero_counterexample:
  "reachable (snd (add_expense empty_state crumbs ''e1'' 1)) \<and>
   map b_amount
     (get_group_balances (balances (snd (add_expense empty_state crumbs ''e1'' 1))) trip) = [0]"
proof -
  have "reachable (snd (add_expense empty_state crumbs ''e1'' 1))"
    by (rule expense_added, rule empty_ledger) (simp_all add: empty_state_def)
  then show ?thesis
    by (simp add: crumbs_balances get_group_balances_def owes_def map_row_to_balance_def
        py_round2_crumb)
qed

text \<open>
  C10, amended. Every stored record of a reachable state has a positive amount;
  \<open>set_balance\<close> keeps this, and with an amount that is not positive it leaves no record
  under the key. \<open>get_group_balances\<close> returns entries of positive stored records only,
  each with its amount rounded to two decimals: a returned amount is not negative, and it
  is 0 when the stored amount is below half a cent.
\<close>

theorem stored_amounts_positive:
  "(reachable s \<longrightarrow> all_positive (balances s)) \<and>
   (all_positive bs \<longrightarrow> all_positive (set_balance bs g f t a)) \<and>
   (a \<le> 0 \<longrightarrow> \<not> has_row (set_balance bs g f t a) g f t) \<and>
   (\<forall>b\<in>set (get_group_balances bs g).
      0 \<le> b_amount b \<and>
      (\<exists>row\<in>set bs. group_id row = g \<and> 0 < amount row \<and> b = map_row_to_balance row))"
proof -
  have "0 \<le> b_amount b" if "b \<in> set (get_group_balances bs g)" for b
  proof -
    from that obtain row where "0 < amount row" "b = map_row_to_balance row"
      by (auto simp: get_group_balances_rows)
    then show ?thesis by (simp add: map_row_to_balance_def py_round2_nonneg)
  qed
  moreover have "reachable s \<longrightarrow> all_positive (balances s)"
    using reachable_ledger_ok[of s] by (auto simp: ledger_ok_def)
  ultimately show ?thesis
    by (auto simp: all_positive_set_balance has_row_set_balance get_group_balances_rows)
qed

theorem stored_amounts_positive_witness:
  "reachable (snd (add_expense empty_state dinner ''e1'' 1)) \<and>
   all_positive (balances (snd (add_expense empty_state dinner ''e1'' 1))) \<and>
   all_positive [owes bob alice 50] \<and>
   \<not> has_row (set_balance [owes bob alice 50] trip bob alice 0) trip bob alice \<and>
   list_all (\<lambda>b. 0 \<le> b_amount b) (get_group_balances [owes bob alice 50] trip)"
proof -
  have p: "all_positive [owes bob alice 50]" by (simp add: all_positive_def owes_def)
  from stored_amounts_positive[of "snd (add_expense empty_state dinner ''e1'' 1)"
      "[owes bob alice 50]" trip bob alice 0] reachable_dinner[of "''e1''" 1] p
  show ?thesis by (simp add: list_all_iff)
qed

section \<open>Exact splits\<close>






section \<open>The rounding bound of equal and percentage splits\<close>








section \<open>Recalculation is idempotent\<close>

lemma clear_update_balance:
  "clear_group_balances (update_balance bs g f t a) g = clear_group_balances bs g"
  unfolding clear_group_balances_def
  by (rule update_balance_unrelated) (simp add: is_key_def)

lemma clear_apply_shares:
  "clear_group_balances (apply_shares bs g payer shares) g = clear_group_balances bs g"
  by (induction shares arbitrary: bs) (simp_all add: clear_update_balance)

lemma clear_replay_expenses:
  "clear_group_balances (snd (replay_expenses bs g es)) g = clear_group_balances bs g"
  by (induction es arbitrary: bs) (simp_all add: clear_apply_shares split: sum.splits)

lemma clear_replay_settlement:
  "st_group_id st = g \<Longrightarrow>
   clear_group_balances (replay_settlement bs st) g = clear_group_balances bs g"
  by (auto simp: replay_settlement_def Let_def clear_update_balance)

lemma clear_foldl_replay_settlement:
  "list_all (\<lambda>st. st_group_id st = g) sts \<Longrightarrow>
   clear_group_balances (foldl replay_settlement bs sts) g = clear_group_balances bs g"
  by (induction sts arbitrary: bs) (simp_all add: clear_replay_settlement)

lemma clear_clear:
  "clear_group_balances (clear_group_balances bs g) g = clear_group_balances bs g"
  by (simp add: clear_group_balances_def)

lemma get_group_expenses_balances:
  "get_group_expenses (s\<lparr>balances := X\<rparr>) g = get_group_expenses s g"
  by (simp add: get_group_expenses_def load_splits_def)

lemma recalculate_balances_cong:
  assumes "clear_group_balances X g = clear_group_balances (balances s) g"
    and "groups s g = Some members"
  shows "recalculate_group_balances (s\<lparr>balances := X\<rparr>) g = recalculate_group_balances s g"
  using assms
  by (auto simp: recalculate_group_balances_def get_group_expenses_balances
      split: option.splits prod.splits)

lemma recalculate_result:
  assumes "groups s g = Some members"
  shows "\<exists>X. snd (recalculate_group_balances s g) = s\<lparr>balances := X\<rparr> \<and>
       clear_group_balances X g = clear_group_balances (balances s) g"
proof -
  let ?r = "replay_expenses (clear_group_balances (balances s) g) g (get_group_expenses s g)"
  obtain e bs where r: "?r = (e, bs)" by (cases ?r)
  have c: "clear_group_balances bs g = clear_group_balances (balances s) g"
    using clear_replay_expenses[of "clear_group_balances (balances s) g" g "get_group_expenses s g"]
    by (simp add: r clear_clear)
  have all: "list_all (\<lambda>st. st_group_id st = g) (filter (\<lambda>st. st_group_id st = g) (settlements s))"
    by (simp add: list_all_iff)
  show ?thesis
  proof (cases e)
    case None
    let ?X = "foldl replay_settlement bs (filter (\<lambda>st. st_group_id st = g) (settlements s))"
    have "snd (recalculate_group_balances s g) = s\<lparr>balances := ?X\<rparr>"
      using assms r None by (simp add: recalculate_group_balances_def)
    moreover have "clear_group_balances ?X g = clear_group_balances (balances s) g"
      using c all by (simp add: clear_foldl_replay_settlement)
    ultimately show ?thesis by blast
  next
    case (Some err)
    have "snd (recalculate_group_balances s g) = s\<lparr>balances := bs\<rparr>"
      using assms r Some by (simp add: recalculate_group_balances_def)
    with c show ?thesis by blast
  qed
qed

text \<open>
  C7. Recalculating a group a second time, right after the first, returns the outcome of
  the first recalculation and leaves the state it produced.
\<close>

theorem recalculate_idempotent:
  "recalculate_group_balances (snd (recalculate_group_balances s g)) g =
   recalculate_group_balances s g"
proof (cases "groups s g")
  case None
  then show ?thesis by (simp add: recalculate_group_balances_def)
next
  case (Some members)
  then obtain X where X: "snd (recalculate_group_balances s g) = s\<lparr>balances := X\<rparr>"
    and c: "clear_group_balances X g = clear_group_balances (balances s) g"
    using recalculate_result by blast
  show ?thesis
    unfolding X using recalculate_balances_cong[OF c Some] by simp
qed

lemma dinner_state:
  "snd (add_expense empty_state dinner eid now) =
     \<lparr>groups = [trip \<mapsto> [alice, bob]],
      expenses = [\<lparr>e_id = eid, e_group_id = trip, total_amount = 100, paid_by = alice,
                   e_split_type = EQUAL, created_at = now\<rparr>],
      expense_splits = [\<lparr>expense_id = eid, user_id = alice, sr_amount = 50, sr_percentage = None\<rparr>,
                        \<lparr>expense_id = eid, user_id = bob, sr_amount = 50, sr_percentage = None\<rparr>],
      settlements = [], balances = [owes bob alice 50]\<rparr>"
  by (simp add: add_expense_def empty_state_def dinner_def participant_def valid_def
      validate_expense_def calculate_splits_def py_round2_50 Let_def alice_neq_bob
      stored_percentage_def
      update_balance_def get_balance_between_users_def set_balance_def is_key_def owes_def)

lemma dinner_recalculated:
  "recalculate_group_balances (snd (add_expense empty_state dinner eid now)) trip =
     (None, snd (add_expense empty_state dinner eid now))"
  by (simp add: dinner_state recalculate_group_balances_def clear_group_balances_def owes_def
      get_group_expenses_def load_splits_def map_row_to_expense_def calculate_splits_def
      py_round2_50 alice_neq_bob update_balance_def get_balance_between_users_def
      set_balance_def is_key_def)

theorem recalculate_idempotent_witness:
  "recalculate_group_balances
     (snd (recalculate_group_balances (snd (add_expense empty_state dinner ''e1'' 1)) trip)) trip =
   (None, snd (add_expense empty_state dinner ''e1'' 1)) \<and>
   balances (snd (add_expense empty_state dinner ''e1'' 1)) = [owes bob alice 50]"
  using recalculate_idempotent[of "snd (add_expense empty_state dinner ''e1'' 1)" trip]
  by (simp add: dinner_recalculated dinner_balances)

section \<open>Recalculation against its description\<close>

lemma carol_neq: "carol \<noteq> alice" "carol \<noteq> bob" "alice \<noteq> carol" "bob \<noteq> carol"
  by (simp_all add: carol_def alice_def bob_def)

lemma py_round2_30: "py_round2 30 = 30"
  by (simp add: py_round2_def Let_def)

lemma two_expenses_state:
  "two_expenses =
     \<lparr>groups = [trip \<mapsto> [alice, bob, carol]],
      expenses = [\<lparr>e_id = ''e1'', e_group_id = trip, total_amount = 100, paid_by = alice,
                   e_split_type = EQUAL, created_at = 1\<rparr>,
                  \<lparr>e_id = ''e2'', e_group_id = trip, total_amount = 60, paid_by = carol,
                   e_split_type = EQUAL, created_at = 2\<rparr>],
      expense_splits =
        [\<lparr>expense_id = ''e1'', user_id = alice, sr_amount = 50, sr_percentage = None\<rparr>,
         \<lparr>expense_id = ''e1'', user_id = bob, sr_amount = 50, sr_percentage = None\<rparr>,
         \<lparr>expense_id = ''e2'', user_id = carol, sr_amount = 30, sr_percentage = None\<rparr>,
         \<lparr>expense_id = ''e2'', user_id = bob, sr_amount = 30, sr_percentage = None\<rparr>],
      settlements = [], balances = [owes bob alice 50, owes bob carol 30]\<rparr>"
  by (simp add: two_expenses_def add_expense_def three_state_def dinner_def lunch_def
      participant_def valid_def
      validate_expense_def calculate_splits_def py_round2_50 py_round2_30 Let_def alice_neq_bob
      carol_neq stored_percentage_def
      update_balance_def get_balance_between_users_def set_balance_def is_key_def owes_def)

lemma two_expenses_code:
  "balances (snd (recalculate_group_balances two_expenses trip)) =
     [owes bob carol 30, owes bob alice 50]"
  by (simp add: two_expenses_state recalculate_group_balances_def clear_group_balances_def owes_def
      get_group_expenses_def load_splits_def map_row_to_expense_def calculate_splits_def
      py_round2_50 py_round2_30 alice_neq_bob carol_neq update_balance_def get_balance_between_users_def
      set_balance_def is_key_def)

lemma two_expenses_spec:
  "balances (snd (spec_recalculate two_expenses trip (creation_order two_expenses trip))) =
     [owes bob alice 50, owes bob carol 30]"
  by (simp add: two_expenses_state spec_recalculate_def clear_group_balances_def owes_def
      creation_order_def load_splits_def map_row_to_expense_def calculate_splits_def
      spec_apply_expense_def
      py_round2_50 py_round2_30 alice_neq_bob carol_neq update_balance_def get_balance_between_users_def
      set_balance_def is_key_def)

lemma group_rows_set_balance:
  "group_rows (set_balance bs g f t a) g = set_balance (group_rows bs g) g f t a"
  by (auto simp: group_rows_def set_balance_def Let_def is_key_def intro!: filter_cong)

lemma get_balance_group_rows:
  "get_balance_between_users (group_rows bs g) g f t = get_balance_between_users bs g f t"
proof -
  have "filter (is_key g f t) (group_rows bs g) = filter (is_key g f t) bs"
    by (auto simp: group_rows_def is_key_def intro!: filter_cong)
  then show ?thesis by (simp add: get_balance_between_users_def)
qed

lemma group_rows_update_balance:
  "group_rows (update_balance bs g f t a) g = update_balance (group_rows bs g) g f t a"
  by (simp add: update_balance_def Let_def group_rows_set_balance get_balance_group_rows)

lemma group_ok_update_balance:
  "ledger_ok (group_rows bs g) \<Longrightarrow> f \<noteq> t \<Longrightarrow>
   ledger_ok (group_rows (update_balance bs g f t a) g)"
  by (simp add: group_rows_update_balance ledger_ok_update_balance)

lemma group_ok_apply_shares:
  "ledger_ok (group_rows bs g) \<Longrightarrow> ledger_ok (group_rows (apply_shares bs g payer shares) g)"
  by (induction shares arbitrary: bs) (simp_all add: group_ok_update_balance)

lemma group_ok_replay_expenses:
  "ledger_ok (group_rows bs g) \<Longrightarrow> ledger_ok (group_rows (snd (replay_expenses bs g es)) g)"
  by (induction es arbitrary: bs) (simp_all add: group_ok_apply_shares split: sum.splits)

lemma group_ok_clear: "ledger_ok (group_rows (clear_group_balances bs g) g)"
  by (simp add: group_rows_def clear_group_balances_def ledger_ok_Nil)

lemma apply_shares_spec:
  "apply_shares bs g payer shares = spec_apply_expense bs g payer shares"
  by (induction shares arbitrary: bs) (simp_all add: spec_apply_expense_def)

lemma replay_expenses_spec:
  "replay_expenses bs g es = spec_replay_expenses bs g es"
  by (induction es arbitrary: bs) (simp_all add: apply_shares_spec split: sum.splits)

lemma replay_settlement_spec:
  assumes "ledger_ok (group_rows bs (st_group_id st))"
  shows "replay_settlement bs st = spec_reverse_settlement bs st"
proof (cases "0 < get_balance_between_users bs (st_group_id st) (st_from_user_id st) (st_to_user_id st)")
  case False
  then show ?thesis by (simp add: replay_settlement_def spec_reverse_settlement_def)
next
  case True
  let ?g = "st_group_id st" and ?f = "st_from_user_id st" and ?t = "st_to_user_id st"
  from assms have pos: "all_positive (group_rows bs ?g)" and nr: "net_reduced (group_rows bs ?g)"
    by (simp_all add: ledger_ok_def)
  from True have "has_row (group_rows bs ?g) ?g ?f ?t"
    using get_balance_pos_iff[OF pos, of ?g ?f ?t] by (simp add: get_balance_group_rows)
  with nr have "\<not> has_row (group_rows bs ?g) ?g ?t ?f" by (simp add: net_reduced_iff)
  then have "\<not> 0 < get_balance_between_users bs ?g ?t ?f"
    using get_balance_pos_iff[OF pos, of ?g ?t ?f] by (simp add: get_balance_group_rows)
  with True show ?thesis
    by (simp add: replay_settlement_def spec_reverse_settlement_def update_balance_def Let_def)
qed

lemma group_ok_replay_settlement:
  assumes "ledger_ok (group_rows bs g)" "st_group_id st = g"
  shows "ledger_ok (group_rows (replay_settlement bs st) g)"
proof (cases "0 < get_balance_between_users bs g (st_from_user_id st) (st_to_user_id st)")
  case False
  with assms show ?thesis by (simp add: replay_settlement_def)
next
  case True
  from assms have pos: "all_positive (group_rows bs g)" by (simp add: ledger_ok_def)
  from True have "has_row (group_rows bs g) g (st_from_user_id st) (st_to_user_id st)"
    using get_balance_pos_iff[OF pos, of g "st_from_user_id st" "st_to_user_id st"]
    by (simp add: get_balance_group_rows)
  with assms(1) have "st_from_user_id st \<noteq> st_to_user_id st" by (rule ledger_ok_no_self)
  with assms True show ?thesis
    by (simp add: replay_settlement_def Let_def group_ok_update_balance)
qed

lemma foldl_replay_settlement_spec:
  "ledger_ok (group_rows bs g) \<Longrightarrow> list_all (\<lambda>st. st_group_id st = g) sts \<Longrightarrow>
   foldl replay_settlement bs sts = foldl spec_reverse_settlement bs sts"
proof (induction sts arbitrary: bs)
  case Nil
  then show ?case by simp
next
  case (Cons st sts)
  from Cons.prems have g: "st_group_id st = g" and rest: "list_all (\<lambda>st. st_group_id st = g) sts"
    by simp_all
  have eq: "replay_settlement bs st = spec_reverse_settlement bs st"
    using Cons.prems(1) g by (simp add: replay_settlement_spec)
  have "ledger_ok (group_rows (replay_settlement bs st) g)"
    using Cons.prems(1) g by (rule group_ok_replay_settlement)
  from Cons.IH[OF this rest] eq show ?case by simp
qed

theorem creation_order_counterexample:
  "balances (snd (recalculate_group_balances two_expenses trip)) =
     [owes bob carol 30, owes bob alice 50] \<and>
   balances (snd (spec_recalculate two_expenses trip (creation_order two_expenses trip))) =
     [owes bob alice 50, owes bob carol 30] \<and>
   recalculate_group_balances two_expenses trip \<noteq>
     spec_recalculate two_expenses trip (creation_order two_expenses trip)"
proof -
  have "[owes bob carol 30, owes bob alice 50] \<noteq> [owes bob alice 50, owes bob carol 30]"
    by (simp add: owes_def carol_neq)
  then have "balances (snd (recalculate_group_balances two_expenses trip)) \<noteq>
    balances (snd (spec_recalculate two_expenses trip (creation_order two_expenses trip)))"
    by (simp only: two_expenses_code two_expenses_spec not_False_eq_True)
  then have "recalculate_group_balances two_expenses trip \<noteq>
     spec_recalculate two_expenses trip (creation_order two_expenses trip)"
    by auto
  then show ?thesis by (simp add: two_expenses_code two_expenses_spec)
qed

text \<open>
  C4, amended. \<open>recalculate_group_balances\<close> clears the balances of the group, replays
  its expenses in the order \<open>get_group_expenses\<close> returns them, the newest first, with one
  call of the update engine per participant who is not the payer, and then reverses every
  settlement of the group: a positive balance from payer to recipient is reduced by the
  smaller of the settlement amount and that balance, and a settlement without such a
  balance changes nothing.
\<close>

theorem recalculate_replays_newest_first:
  "recalculate_group_balances s g = spec_recalculate s g (get_group_expenses s g)"
proof (cases "groups s g")
  case None
  then show ?thesis by (simp add: recalculate_group_balances_def spec_recalculate_def)
next
  case (Some members)
  let ?r = "replay_expenses (clear_group_balances (balances s) g) g (get_group_expenses s g)"
  obtain e bs where r: "?r = (e, bs)" by (cases ?r)
  have "ledger_ok (group_rows (snd ?r) g)"
    by (rule group_ok_replay_expenses) (rule group_ok_clear)
  then have ok: "ledger_ok (group_rows bs g)" by (simp add: r)
  have all: "list_all (\<lambda>st. st_group_id st = g) (filter (\<lambda>st. st_group_id st = g) (settlements s))"
    by (simp add: list_all_iff)
  have "foldl replay_settlement bs (filter (\<lambda>st. st_group_id st = g) (settlements s)) =
        foldl spec_reverse_settlement bs (filter (\<lambda>st. st_group_id st = g) (settlements s))"
    using ok all by (rule foldl_replay_settlement_spec)
  with Some r show ?thesis
    by (cases e)
       (simp_all add: recalculate_group_balances_def spec_recalculate_def
          replay_expenses_spec[symmetric])
qed

theorem recalculate_replays_newest_first_witness:
  "spec_recalculate two_expenses trip (get_group_expenses two_expenses trip) =
     recalculate_group_balances two_expenses trip \<and>
   balances (snd (spec_recalculate two_expenses trip (get_group_expenses two_expenses trip))) =
     [owes bob carol 30, owes bob alice 50]"
  using recalculate_replays_newest_first[of two_expenses trip, symmetric]
  by (simp add: two_expenses_code)

section \<open>The simplifier\<close>




lemma cents_py_round2: "cents (py_round2 x)"
  unfolding cents_def by (rule py_round2_idem)






































end
